theory Spec2Isabelle
  imports Main "HOL-Library.AList"
begin

section \<open>JSON values as the hub sees them\<close>

text \<open>
  The hub (\<^verbatim>\<open>server.ts\<close>) keeps whatever \<^verbatim>\<open>JSON.parse\<close> made of a frame: its registry
  is a \<^verbatim>\<open>Map<WebSocket, any>\<close>. A parsed value is a \<open>json\<close>; a JavaScript value that may
  also be \<^verbatim>\<open>undefined\<close> (a property that is not there) is a \<open>jsval\<close>, with \<open>None\<close> for
  \<^verbatim>\<open>undefined\<close>. An object is the list of its own properties (keys unique, as
  \<^verbatim>\<open>JSON.parse\<close> leaves them). Numbers are kept as integers; nothing below computes with
  them.
\<close>

datatype json =
    JNull
  | JBool bool
  | JNum int
  | JStr string
  | JArr "json list"
  | JObj "(string \<times> json) list"

type_synonym jsval = "json option"

datatype error = SyntaxError | TypeError

text \<open>
  Reading a property, \<^verbatim>\<open>v.k\<close>, for the three keys the hub reads (\<^verbatim>\<open>type\<close>, \<^verbatim>\<open>user\<close>,
  \<^verbatim>\<open>id\<close>; none of them is inherited from a prototype): on \<^verbatim>\<open>undefined\<close> and \<^verbatim>\<open>null\<close>
  it throws a TypeError, on an object it is the own property or \<^verbatim>\<open>undefined\<close>, on every
  other value it is \<^verbatim>\<open>undefined\<close>.
\<close>

fun get_prop :: "jsval \<Rightarrow> string \<Rightarrow> error + jsval" where
  "get_prop None k = Inl TypeError"
| "get_prop (Some JNull) k = Inl TypeError"
| "get_prop (Some (JObj kvs)) k = Inr (map_of kvs k)"
| "get_prop (Some v) k = Inr None"

text \<open>
  Keys of a JavaScript \<^verbatim>\<open>Map\<close> are compared by SameValueZero: primitives by value,
  objects and arrays by reference. Every registry entry holds the result of its own
  \<^verbatim>\<open>JSON.parse\<close> call, so an object or array met as the \<^verbatim>\<open>id\<close> of one entry is never
  the same reference as a key stored for another entry.
\<close>

fun is_reference :: "jsval \<Rightarrow> bool" where
  "is_reference (Some (JArr xs)) = True"
| "is_reference (Some (JObj kvs)) = True"
| "is_reference v = False"

definition same_value_zero :: "jsval \<Rightarrow> jsval \<Rightarrow> bool" where
  "same_value_zero k k' = (k = k' \<and> \<not> is_reference k)"

text \<open>\<^verbatim>\<open>usersMap.set(key, value)\<close>: an existing key keeps its place and takes the new
  value, a new key goes to the end.\<close>

fun usersMap_set :: "(jsval \<times> json) list \<Rightarrow> jsval \<Rightarrow> json \<Rightarrow> (jsval \<times> json) list" where
  "usersMap_set [] k v = [(k, v)]"
| "usersMap_set ((k', v') # m) k v =
     (if same_value_zero k' k then (k', v) # m else (k', v') # usersMap_set m k v)"

section \<open>The presence hub (server.ts)\<close>

datatype ready_state = CONNECTING | OPEN | CLOSING | CLOSED

type_synonym conn = nat

text \<open>
  \<open>activeUsers\<close> is the \<^verbatim>\<open>Map<WebSocket, any>\<close> of line 19, in insertion order
  (\<open>AList.update\<close> is \<^verbatim>\<open>Map.set\<close>, \<open>AList.delete\<close> is \<^verbatim>\<open>Map.delete\<close>). \<open>clients\<close> is
  \<^verbatim>\<open>wss.clients\<close> with each socket's \<^verbatim>\<open>readyState\<close>; the transport library maintains it.
  \<open>sent\<close> records every \<^verbatim>\<open>client.send(payload)\<close>, oldest first; the payload is kept as the
  value \<^verbatim>\<open>JSON.stringify\<close> serialises.
\<close>

record hub =
  activeUsers :: "(conn \<times> jsval) list"
  clients :: "(conn \<times> ready_state) list"
  sent :: "(conn \<times> json) list"

definition hub0 :: hub where
  "hub0 = \<lparr>activeUsers = [], clients = [], sent = []\<rparr>"

text \<open>Lines 43-46: the loop \<^verbatim>\<open>activeUsers.forEach(user => usersMap.set(user.id, user))\<close>.
  \<^verbatim>\<open>user.id\<close> throws when a registered value is \<^verbatim>\<open>undefined\<close> or \<^verbatim>\<open>null\<close>.\<close>

fun collect_users :: "(jsval \<times> json) list \<Rightarrow> jsval list \<Rightarrow> error + (jsval \<times> json) list" where
  "collect_users m [] = Inr m"
| "collect_users m (user # rest) =
     (case get_prop user ''id'' of
        Inl err \<Rightarrow> Inl err
      | Inr k \<Rightarrow>
          (case user of
             None \<Rightarrow> Inl TypeError
           | Some u \<Rightarrow> collect_users (usersMap_set m k u) rest))"

text \<open>Line 47: \<^verbatim>\<open>Array.from(usersMap.values())\<close>.\<close>

definition snapshot :: "(conn \<times> jsval) list \<Rightarrow> error + json list" where
  "snapshot reg =
     (case collect_users [] (map snd reg) of
        Inl err \<Rightarrow> Inl err
      | Inr m \<Rightarrow> Inr (map snd m))"

definition presence_update :: "json list \<Rightarrow> json" where
  "presence_update users = JObj [(''type'', JStr ''PRESENCE_UPDATE''), (''users'', JArr users)]"

definition open_clients :: "hub \<Rightarrow> conn list" where
  "open_clients h = map fst (filter (\<lambda>(c, rs). rs = OPEN) (clients h))"

text \<open>Lines 42-54. An exception leaves the function before anything is sent.\<close>

definition broadcastPresence :: "hub \<Rightarrow> error + hub" where
  "broadcastPresence h =
     (case snapshot (activeUsers h) of
        Inl err \<Rightarrow> Inl err
      | Inr users \<Rightarrow>
          Inr (h\<lparr>sent := sent h @ map (\<lambda>c. (c, presence_update users)) (open_clients h)\<rparr>))"

text \<open>
  Lines 24-35, the \<^verbatim>\<open>message\<close> handler of connection \<open>ws\<close>. Its argument is what
  \<^verbatim>\<open>JSON.parse(message.toString())\<close> does with the frame: \<open>Inl SyntaxError\<close> when it throws,
  \<open>Inr data\<close> otherwise. Everything runs inside the \<^verbatim>\<open>try\<close>; the \<^verbatim>\<open>catch\<close> logs, so an
  exception ends the handler with the state reached so far.
\<close>

definition on_message :: "hub \<Rightarrow> conn \<Rightarrow> error + json \<Rightarrow> hub" where
  "on_message h ws parsed =
     (case parsed of
        Inl err \<Rightarrow> h
      | Inr data \<Rightarrow>
          (case get_prop (Some data) ''type'' of
             Inl err \<Rightarrow> h
           | Inr ty \<Rightarrow>
               if ty = Some (JStr ''USER_JOINED'') then
                 (case get_prop (Some data) ''user'' of
                    Inl err \<Rightarrow> h
                  | Inr user \<Rightarrow>
                      let h' = h\<lparr>activeUsers := AList.update ws user (activeUsers h)\<rparr>
                      in (case broadcastPresence h' of Inl err \<Rightarrow> h' | Inr h'' \<Rightarrow> h''))
               else h))"

text \<open>Lines 37-40, the \<^verbatim>\<open>close\<close> handler. There is no \<^verbatim>\<open>try\<close> here: an exception of
  \<^verbatim>\<open>broadcastPresence\<close> leaves the handler uncaught.\<close>

definition on_close :: "hub \<Rightarrow> conn \<Rightarrow> error + hub" where
  "on_close h ws = broadcastPresence (h\<lparr>activeUsers := AList.delete ws (activeUsers h)\<rparr>)"

text \<open>
  What happens at the hub: a transport connects (the library adds the open socket to
  \<^verbatim>\<open>wss.clients\<close>; the handler of line 21 only logs), a frame arrives, a transport closes
  (the library drops the socket from \<^verbatim>\<open>wss.clients\<close>, then the \<^verbatim>\<open>close\<close> handler runs).
  A run stops at the first uncaught exception.
\<close>

datatype event = Connection conn | Message conn "error + json" | Close conn

fun step :: "hub \<Rightarrow> event \<Rightarrow> error + hub" where
  "step h (Connection ws) = Inr (h\<lparr>clients := AList.update ws OPEN (clients h)\<rparr>)"
| "step h (Message ws parsed) = Inr (on_message h ws parsed)"
| "step h (Close ws) = on_close (h\<lparr>clients := AList.delete ws (clients h)\<rparr>) ws"

fun run_events :: "hub \<Rightarrow> event list \<Rightarrow> error + hub" where
  "run_events h [] = Inr h"
| "run_events h (e # es) =
     (case step h e of Inl err \<Rightarrow> Inl err | Inr h' \<Rightarrow> run_events h' es)"

text \<open>The \<^verbatim>\<open>id\<close> of an entry of a broadcast \<^verbatim>\<open>users\<close> array.\<close>

definition entry_id :: "json \<Rightarrow> jsval" where
  "entry_id u = (case get_prop (Some u) ''id'' of Inl err \<Rightarrow> None | Inr k \<Rightarrow> k)"

text \<open>The frame \<^verbatim>\<open>{"type":"USER_JOINED","user":u}\<close> a client sends on open (App.tsx, line 45).\<close>

definition user_joined :: "json \<Rightarrow> json" where
  "user_joined u = JObj [(''type'', JStr ''USER_JOINED''), (''user'', u)]"

section \<open>The presence client and the notification store (App.tsx)\<close>

text \<open>
  On the client the users of a snapshot are typed (\<^verbatim>\<open>message.users as User[]\<close>). Of the
  fields of \<^verbatim>\<open>User\<close> (types.ts) the code below reads \<^verbatim>\<open>id\<close>, \<^verbatim>\<open>name\<close> and \<^verbatim>\<open>email\<close>;
  \<^verbatim>\<open>role\<close>, \<^verbatim>\<open>isEditor\<close>, the skill lists and the settings are left out.
\<close>

record User =
  user_id :: string
  user_name :: string
  user_email :: string
  user_avatar :: string

datatype NotificationType = NMessage | NSession | NUpload | NSkill

record NotificationLink =
  link_tab :: "string option"
  link_skillId :: "string option"
  link_contentId :: "string option"

record AppNotification =
  notif_id :: string
  notif_userId :: string
  notif_type :: NotificationType
  notif_title :: string
  notif_message :: string
  notif_timestamp :: string
  notif_isRead :: bool
  notif_link :: "NotificationLink option"

text \<open>\<^verbatim>\<open>Omit<AppNotification, 'id' | 'userId' | 'timestamp' | 'isRead'>\<close>, the argument of
  \<^verbatim>\<open>addNotification\<close>.\<close>

record NotificationInput =
  in_type :: NotificationType
  in_title :: string
  in_message :: string
  in_link :: "NotificationLink option"

text \<open>What the clock gives one call of \<^verbatim>\<open>addNotification\<close>: the value of \<^verbatim>\<open>Date.now()\<close>
  (milliseconds) and the text of \<^verbatim>\<open>new Date().toISOString()\<close>.\<close>

type_synonym reading = "nat \<times> string"

text \<open>The decimal digits of a number, as \<^verbatim>\<open>'n' + Date.now()\<close> appends them.\<close>

fun dec :: "nat \<Rightarrow> string" where
  "dec n = (if n < 10 then [''0123456789'' ! n] else dec (n div 10) @ [''0123456789'' ! (n mod 10)])"

declare dec.simps [simp del]

text \<open>The \<^verbatim>\<open>WebSocket\<close> made by the presence effect, with the \<^verbatim>\<open>data.currentUser\<close> its
  handlers closed over.\<close>

record socket =
  readyState :: ready_state
  owner :: User

text \<open>
  The state of the \<^verbatim>\<open>App\<close> component that presence and notifications touch:
  \<^verbatim>\<open>data.currentUser\<close>, \<^verbatim>\<open>data.users\<close>, \<^verbatim>\<open>data.notifications\<close>, the \<^verbatim>\<open>onlineUsers\<close> state,
  \<^verbatim>\<open>onlineUsersRef.current\<close>, and the socket of the latest run of the presence effect.
\<close>

record client =
  currentUser :: "User option"
  users :: "User list"
  notifications :: "AppNotification list"
  onlineUsers :: "User list"
  onlineUsersRef :: "User list"
  socket :: "socket option"

subsection \<open>The notification store (lines 206-227, 423)\<close>

text \<open>The object \<^verbatim>\<open>newNotif\<close> of lines 208-214.\<close>

definition stamp :: "User \<Rightarrow> reading \<Rightarrow> NotificationInput \<Rightarrow> AppNotification" where
  "stamp u r notif =
     \<lparr>notif_id = CHR ''n'' # dec (fst r), notif_userId = user_id u, notif_type = in_type notif,
      notif_title = in_title notif, notif_message = in_message notif, notif_timestamp = snd r,
      notif_isRead = False, notif_link = in_link notif\<rparr>"

text \<open>\<open>cur\<close> is the \<^verbatim>\<open>data.currentUser\<close> of the render the function was created in.\<close>

definition addNotification :: "User option \<Rightarrow> reading \<Rightarrow> NotificationInput \<Rightarrow> client \<Rightarrow> client" where
  "addNotification cur r notif c =
     (case cur of
        None \<Rightarrow> c
      | Some u \<Rightarrow> c\<lparr>notifications := stamp u r notif # notifications c\<rparr>)"

definition markNotificationAsRead :: "string \<Rightarrow> client \<Rightarrow> client" where
  "markNotificationAsRead i c =
     c\<lparr>notifications :=
         map (\<lambda>n. if notif_id n = i then n\<lparr>notif_isRead := True\<rparr> else n) (notifications c)\<rparr>"

definition clearNotifications :: "client \<Rightarrow> client" where
  "clearNotifications c = c\<lparr>notifications := []\<rparr>"

text \<open>Line 423: \<^verbatim>\<open>(data.notifications || []).filter(n => !n.isRead).length\<close>.\<close>

definition unreadNotifications :: "client \<Rightarrow> nat" where
  "unreadNotifications c = length (filter (\<lambda>n. \<not> notif_isRead n) (notifications c))"

subsection \<open>Receiving a snapshot (lines 48-72)\<close>

text \<open>The notification of lines 58-62.\<close>

definition peer_connected :: "User \<Rightarrow> NotificationInput" where
  "peer_connected u =
     \<lparr>in_type = NMessage, in_title = ''Peer Connected'',
      in_message = user_name u @ '' has joined the peer network.'', in_link = None\<rparr>"

text \<open>What \<^verbatim>\<open>JSON.parse(event.data)\<close> and the test of \<^verbatim>\<open>message.type\<close> make of a frame.\<close>

datatype frame = Unparseable | PRESENCE_UPDATE "User list" | Other_frame

text \<open>
  Lines 56-64, \<^verbatim>\<open>newUsers.forEach\<close>. \<open>me\<close> is the user the handler closed over, \<open>clock i\<close>
  what the clock reads when the \<open>i\<close>-th user of the snapshot is handled.
\<close>

fun notify_new :: "User \<Rightarrow> (nat \<Rightarrow> reading) \<Rightarrow> nat \<Rightarrow> User list \<Rightarrow> client \<Rightarrow> client" where
  "notify_new me clock i [] c = c"
| "notify_new me clock i (u # newUsers) c =
     notify_new me clock (Suc i) newUsers
       (if user_id u \<noteq> user_id me \<and>
           \<not> list_ex (\<lambda>existing. user_id existing = user_id u) (onlineUsersRef c)
        then addNotification (Some me) (clock i) (peer_connected u) c
        else c)"

definition ws_onmessage :: "User \<Rightarrow> (nat \<Rightarrow> reading) \<Rightarrow> frame \<Rightarrow> client \<Rightarrow> client" where
  "ws_onmessage me clock msg c =
     (case msg of
        PRESENCE_UPDATE newUsers \<Rightarrow>
          (if length (onlineUsersRef c) > 0 then notify_new me clock 0 newUsers c else c)
            \<lparr>onlineUsers := newUsers\<rparr>
      | _ \<Rightarrow> c)"

text \<open>Lines 74-76: the error handler logs and does nothing else.\<close>

definition ws_onerror :: "client \<Rightarrow> client" where
  "ws_onerror c = c"

subsection \<open>The effects (lines 31-83)\<close>

text \<open>Lines 31-33.\<close>

definition sync_ref :: "client \<Rightarrow> client" where
  "sync_ref c = c\<lparr>onlineUsersRef := onlineUsers c\<rparr>"

text \<open>Lines 78-82, the cleanup of the presence effect.\<close>

definition presence_cleanup :: "client \<Rightarrow> client" where
  "presence_cleanup c =
     (case socket c of
        None \<Rightarrow> c
      | Some ws \<Rightarrow>
          if readyState ws = OPEN \<or> readyState ws = CONNECTING
          then c\<lparr>socket := Some (ws\<lparr>readyState := CLOSING\<rparr>)\<rparr>
          else c)"

text \<open>Lines 36-42, the body of the presence effect.\<close>

definition presence_effect :: "client \<Rightarrow> client" where
  "presence_effect c =
     (case currentUser c of
        None \<Rightarrow> c\<lparr>onlineUsers := []\<rparr>
      | Some u \<Rightarrow> c\<lparr>socket := Some \<lparr>readyState = CONNECTING, owner = u\<rparr>\<rparr>)"

text \<open>The dependency of the presence effect, \<^verbatim>\<open>data.currentUser?.id\<close> (line 83).\<close>

definition dep :: "client \<Rightarrow> string option" where
  "dep c = map_option user_id (currentUser c)"

text \<open>
  What React does after a state update that took the committed state \<open>prev\<close> to \<open>c\<close>: the
  ref effect runs; when the dependency changed, the cleanup and then the body of the presence
  effect run; the render that \<^verbatim>\<open>setOnlineUsers([])\<close> asks for runs the ref effect again.
\<close>

definition commit :: "client \<Rightarrow> client \<Rightarrow> client" where
  "commit prev c =
     (let c1 = sync_ref c;
          c2 = (if dep c \<noteq> dep prev then presence_effect (presence_cleanup c1) else c1)
      in sync_ref c2)"

text \<open>Loading the app (lines 20-29): the stored data, nobody online, then both effects.\<close>

definition mount :: "User option \<Rightarrow> User list \<Rightarrow> AppNotification list \<Rightarrow> client" where
  "mount cu us ns =
     sync_ref (presence_effect (sync_ref
       \<lparr>currentUser = cu, users = us, notifications = ns, onlineUsers = [], onlineUsersRef = [],
        socket = None\<rparr>))"

subsection \<open>Session handlers (lines 98-114, 239-241)\<close>

definition handleLogin :: "User \<Rightarrow> client \<Rightarrow> client" where
  "handleLogin user c =
     (case find (\<lambda>u. user_email u = user_email user) (users c) of
        None \<Rightarrow> c\<lparr>users := users c @ [user], currentUser := Some user\<rparr>
      | Some u \<Rightarrow> c\<lparr>currentUser := Some user\<rparr>)"

definition handleLogout :: "client \<Rightarrow> client" where
  "handleLogout c = c\<lparr>currentUser := None\<rparr>"

text \<open>The argument of \<^verbatim>\<open>handleBulkUpdate\<close>: each field it carries replaces the stored one
  (\<^verbatim>\<open>setData({ ...data, ...newData })\<close>). The CSV import of DataHub.tsx (lines 119-126)
  passes \<^verbatim>\<open>users\<close> and \<^verbatim>\<open>currentUser: newUsers[0]\<close>.\<close>

record newData =
  new_users :: "User list option"
  new_notifications :: "AppNotification list option"
  new_currentUser :: "User option option"

definition handleBulkUpdate :: "newData \<Rightarrow> client \<Rightarrow> client" where
  "handleBulkUpdate nd c =
     c\<lparr>users := (case new_users nd of None \<Rightarrow> users c | Some us \<Rightarrow> us),
       notifications :=
         (case new_notifications nd of None \<Rightarrow> notifications c | Some ns \<Rightarrow> ns),
       currentUser := (case new_currentUser nd of None \<Rightarrow> currentUser c | Some cu \<Rightarrow> cu)\<rparr>"

text \<open>A handler followed by the render it causes.\<close>

definition login :: "User \<Rightarrow> client \<Rightarrow> client" where
  "login user c = commit c (handleLogin user c)"

definition logout :: "client \<Rightarrow> client" where
  "logout c = commit c (handleLogout c)"

definition bulkUpdate :: "newData \<Rightarrow> client \<Rightarrow> client" where
  "bulkUpdate nd c = commit c (handleBulkUpdate nd c)"

text \<open>
  The transport: a connecting socket opens (\<^verbatim>\<open>onopen\<close> then sends the \<open>user_joined\<close> frame,
  which changes nothing here), and a frame is handed to \<^verbatim>\<open>onmessage\<close> only while the socket
  is open.

  The handler reads \<^verbatim>\<open>onlineUsersRef.current\<close>, which only the ref effect writes, after a
  render. So there are two ways a frame can be handled. \<open>receive\<close> is the handler alone: the
  frame arrives before the render that the previous frame asked for, and the cache it reads
  is the one of the last render. \<open>deliver\<close> is the handler followed by the render it
  causes: the next frame then reads the updated cache. Which of the two happens is up to
  the scheduling of frames and renders; the code does not decide it.
\<close>

definition transport_opened :: "client \<Rightarrow> client" where
  "transport_opened c =
     (case socket c of
        None \<Rightarrow> c
      | Some ws \<Rightarrow>
          if readyState ws = CONNECTING then c\<lparr>socket := Some (ws\<lparr>readyState := OPEN\<rparr>)\<rparr> else c)"

definition receive :: "(nat \<Rightarrow> reading) \<Rightarrow> frame \<Rightarrow> client \<Rightarrow> client" where
  "receive clock msg c =
     (case socket c of
        None \<Rightarrow> c
      | Some ws \<Rightarrow> if readyState ws = OPEN then ws_onmessage (owner ws) clock msg c else c)"

definition deliver :: "(nat \<Rightarrow> reading) \<Rightarrow> frame \<Rightarrow> client \<Rightarrow> client" where
  "deliver clock msg c =
     (case socket c of
        None \<Rightarrow> c
      | Some ws \<Rightarrow>
          if readyState ws = OPEN then commit c (ws_onmessage (owner ws) clock msg c) else c)"

section \<open>Concrete runs\<close>

definition alice :: json where
  "alice = JObj [(''id'', JStr ''u1''), (''name'', JStr ''Alice''), (''avatar'', JStr ''a.png'')]"

definition alice_tab2 :: json where
  "alice_tab2 =
     JObj [(''id'', JStr ''u1''), (''name'', JStr ''Alice (2)''), (''avatar'', JStr ''a.png'')]"

definition bob :: json where
  "bob = JObj [(''id'', JStr ''u2''), (''name'', JStr ''Bob''), (''avatar'', JStr ''b.png'')]"

text \<open>Three sockets; the first and the third announce the same id.\<close>

definition three_sockets :: "event list" where
  "three_sockets =
     [Connection 1, Connection 2, Connection 3,
      Message 1 (Inr (user_joined alice)), Message 2 (Inr (user_joined bob)),
      Message 3 (Inr (user_joined alice_tab2))]"

definition hub_two_open :: hub where
  "hub_two_open =
     \<lparr>activeUsers = [(1, Some alice)], clients = [(1, OPEN), (2, OPEN), (3, CLOSING)], sent = []\<rparr>"

text \<open>The frame \<^verbatim>\<open>{"type":"USER_JOINED"}\<close>, and one whose user has no id.\<close>

definition bare_join :: json where
  "bare_join = JObj [(''type'', JStr ''USER_JOINED'')]"

definition anonymous_join :: json where
  "anonymous_join = user_joined (JObj [(''name'', JStr ''Nobody'')])"

text \<open>Connection 2 sends the frame without a user; then connection 1 announces \<open>alice\<close>.\<close>

definition bare_then_alice :: "event list" where
  "bare_then_alice =
     [Connection 1, Connection 2, Message 2 (Inr bare_join), Message 1 (Inr (user_joined alice))]"

definition hub_alice :: hub where
  "hub_alice = \<lparr>activeUsers = [(1, Some alice)], clients = [(1, OPEN), (2, OPEN)], sent = []\<rparr>"

text \<open>Users of the runs below. \<open>ann2\<close> is \<open>ann\<close> as a CSV import recreates her
  (the import stamps the id \<^verbatim>\<open>u${index}_${Date.now()}\<close>).\<close>

definition ann :: User where
  "ann = \<lparr>user_id = ''a'', user_name = ''Ann'', user_email = ''ann@example.org'', user_avatar = ''''\<rparr>"

definition ann2 :: User where
  "ann2 = \<lparr>user_id = ''u0_1700000000000'', user_name = ''Ann'', user_email = ''ann@example.org'', user_avatar = ''''\<rparr>"

definition bo :: User where
  "bo = \<lparr>user_id = ''b'', user_name = ''Bo'', user_email = ''bo@example.org'', user_avatar = ''''\<rparr>"

definition cy :: User where
  "cy = \<lparr>user_id = ''c'', user_name = ''Cy'', user_email = ''cy@example.org'', user_avatar = ''''\<rparr>"

definition di :: User where
  "di = \<lparr>user_id = ''d'', user_name = ''Di'', user_email = ''di@example.org'', user_avatar = ''''\<rparr>"

definition ed :: User where
  "ed = \<lparr>user_id = ''e'', user_name = ''Ed'', user_email = ''ed@example.org'', user_avatar = ''''\<rparr>"

text \<open>A clock that reads the same millisecond at every call.\<close>

definition same_ms :: "nat \<Rightarrow> reading" where
  "same_ms i = (1700000000000, ''2023-11-14T22:13:20.000Z'')"

text \<open>The app loads with \<open>ann\<close> stored as the current user and its socket opens.\<close>

definition fresh_ann :: client where
  "fresh_ann = transport_opened (mount (Some ann) [ann] [])"

text \<open>Its first snapshot arrives: before the hub has seen its announce (\<open>peers_seen\<close>), or
  after (\<open>after_first\<close>).\<close>

definition peers_seen :: client where
  "peers_seen = deliver same_ms (PRESENCE_UPDATE [bo, cy]) fresh_ann"

definition after_first :: client where
  "after_first = deliver same_ms (PRESENCE_UPDATE [ann, bo]) fresh_ann"

text \<open>A CSV import in the data hub replaces the current user; the presence effect runs again
  and the new socket opens.\<close>

definition csv_import :: newData where
  "csv_import =
     \<lparr>new_users = Some [ann2], new_notifications = None, new_currentUser = Some (Some ann2)\<rparr>"

definition switched :: client where
  "switched = transport_opened (bulkUpdate csv_import after_first)"

text \<open>A snapshot with three new peers, handled within one millisecond.\<close>

definition burst :: client where
  "burst = deliver same_ms (PRESENCE_UPDATE [ann, bo, cy, di, ed]) after_first"

text \<open>Three calls of \<^verbatim>\<open>addNotification\<close> made for the user \<open>u\<close>.\<close>

definition three_adds ::
  "User \<Rightarrow> reading \<Rightarrow> reading \<Rightarrow> reading \<Rightarrow>
   NotificationInput \<Rightarrow> NotificationInput \<Rightarrow> NotificationInput \<Rightarrow> client \<Rightarrow> client" where
  "three_adds u r1 r2 r3 n1 n2 n3 c =
     addNotification (Some u) r3 n3 (addNotification (Some u) r2 n2 (addNotification (Some u) r1 n1 c))"

text \<open>\<open>bo\<close> gets a notification and logs out; \<open>ann\<close> logs in on the same browser and gets
  one.\<close>

definition shared_store :: client where
  "shared_store =
     (let s1 = addNotification (Some bo) (same_ms 0) (peer_connected cy) (mount (Some bo) [bo] []);
          s2 = login ann (logout s1)
      in addNotification (currentUser s2) (same_ms 0) (peer_connected di) s2)"

section \<open>Invariants of the hub\<close>

text \<open>In \<^verbatim>\<open>usersMap\<close> every key is the \<^verbatim>\<open>id\<close> of the value stored under it.\<close>

definition keys_ok :: "(jsval \<times> json) list \<Rightarrow> bool" where
  "keys_ok m = (\<forall>(k, u) \<in> set m. entry_id u = k \<and> u \<noteq> JNull)"

text \<open>A registered value on which \<^verbatim>\<open>user.id\<close> does not throw.\<close>

definition healthy :: "jsval \<Rightarrow> bool" where
  "healthy v = (v \<noteq> None \<and> v \<noteq> Some JNull)"

text \<open>No two entries carry the same primitive \<^verbatim>\<open>id\<close>.\<close>

definition dedup_users :: "json list \<Rightarrow> bool" where
  "dedup_users us = distinct (filter (\<lambda>k. \<not> is_reference k) (map entry_id us))"

definition sent_ok :: "hub \<Rightarrow> bool" where
  "sent_ok h = (\<forall>(c, p) \<in> set (sent h). \<exists>us. p = presence_update us \<and> dedup_users us)"

section \<open>The hub: deduplication and broadcast\<close>

lemma entry_id_of_get_prop:
  "get_prop (Some u) ''id'' = Inr k \<Longrightarrow> entry_id u = k \<and> u \<noteq> JNull"
  by (cases u) (auto simp: entry_id_def)

lemma usersMap_set_keys_hit:
  "\<exists>p \<in> set m. same_value_zero (fst p) k \<Longrightarrow> map fst (usersMap_set m k v) = map fst m"
  by (induction m) force+

lemma usersMap_set_keys_miss:
  "\<forall>p \<in> set m. \<not> same_value_zero (fst p) k \<Longrightarrow> map fst (usersMap_set m k v) = map fst m @ [k]"
  by (induction m) auto

lemma usersMap_set_key_list: "set (map fst (usersMap_set m k v)) = insert k (set (map fst m))"
proof (cases "\<exists>p \<in> set m. same_value_zero (fst p) k")
  case True
  then have "k \<in> set (map fst m)" by (auto simp: same_value_zero_def)
  then show ?thesis using True by (auto simp only: usersMap_set_keys_hit [OF True])
next
  case False
  then have "\<forall>p \<in> set m. \<not> same_value_zero (fst p) k" by blast
  then show ?thesis by (simp add: usersMap_set_keys_miss)
qed

lemma usersMap_set_key_set: "fst ` set (usersMap_set m k v) = insert k (fst ` set m)"
  using usersMap_set_key_list [of m k v] by simp

lemma usersMap_set_keys_ok:
  "keys_ok m \<Longrightarrow> entry_id v = k \<Longrightarrow> v \<noteq> JNull \<Longrightarrow> keys_ok (usersMap_set m k v)"
  by (induction m) (auto simp: keys_ok_def same_value_zero_def split: if_splits)

lemma usersMap_set_dedup:
  assumes "distinct (filter (\<lambda>k. \<not> is_reference k) (map fst m))"
  shows "distinct (filter (\<lambda>k. \<not> is_reference k) (map fst (usersMap_set m k v)))"
proof (cases "\<exists>p \<in> set m. same_value_zero (fst p) k")
  case True
  then show ?thesis using assms by (simp add: usersMap_set_keys_hit)
next
  case False
  then have miss: "\<forall>p \<in> set m. \<not> same_value_zero (fst p) k" by blast
  then have "\<not> is_reference k \<Longrightarrow> k \<notin> fst ` set m"
    by (auto simp: same_value_zero_def)
  then show ?thesis using assms
    by (auto simp: usersMap_set_keys_miss [OF miss])
qed

lemma collect_users_inv:
  assumes "collect_users m vs = Inr m'" and "keys_ok m"
    and "distinct (filter (\<lambda>k. \<not> is_reference k) (map fst m))"
  shows "keys_ok m' \<and> distinct (filter (\<lambda>k. \<not> is_reference k) (map fst m'))"
  using assms
proof (induction vs arbitrary: m)
  case Nil
  then show ?case by simp
next
  case (Cons v vs)
  from Cons.prems(1) obtain u k where v: "v = Some u" and k: "get_prop (Some u) ''id'' = Inr k"
    and rest: "collect_users (usersMap_set m k u) vs = Inr m'"
    by (auto split: sum.splits option.splits)
  from k have "entry_id u = k" "u \<noteq> JNull" using entry_id_of_get_prop by blast+
  with Cons.prems(2) have "keys_ok (usersMap_set m k u)" by (simp add: usersMap_set_keys_ok)
  moreover have "distinct (filter (\<lambda>k. \<not> is_reference k) (map fst (usersMap_set m k u)))"
    using Cons.prems(3) by (rule usersMap_set_dedup)
  ultimately show ?case using Cons.IH [OF rest] by blast
qed

lemma collect_users_keys:
  "collect_users m vs = Inr m' \<Longrightarrow>
   fst ` set m' = fst ` set m \<union> {k. \<exists>u. Some u \<in> set vs \<and> get_prop (Some u) ''id'' = Inr k}"
proof (induction vs arbitrary: m)
  case Nil
  then show ?case by simp
next
  case (Cons v vs)
  from Cons.prems(1) obtain u k where v: "v = Some u" and k: "get_prop (Some u) ''id'' = Inr k"
    and rest: "collect_users (usersMap_set m k u) vs = Inr m'"
    by (auto split: sum.splits option.splits)
  show ?case using Cons.IH [OF rest] v k
    by (auto simp: usersMap_set_key_set)
qed

lemma healthy_get_prop:
  assumes "healthy v"
  shows "\<exists>u k. v = Some u \<and> get_prop v ''id'' = Inr k"
proof (cases v)
  case None
  with assms show ?thesis by (simp add: healthy_def)
next
  case (Some u)
  with assms show ?thesis by (cases u) (auto simp: healthy_def)
qed

lemma collect_users_total:
  "\<forall>v \<in> set vs. healthy v \<Longrightarrow> \<exists>m'. collect_users m vs = Inr m'"
proof (induction vs arbitrary: m)
  case Nil
  then show ?case by simp
next
  case (Cons v vs)
  then have "healthy v" by simp
  then obtain u k where "v = Some u" "get_prop v ''id'' = Inr k"
    using healthy_get_prop by blast
  then show ?case using Cons by simp
qed

lemma nth_distinct_filter:
  "distinct (filter P xs) \<Longrightarrow> i < length xs \<Longrightarrow> j < length xs \<Longrightarrow> i \<noteq> j \<Longrightarrow> P (xs ! i) \<Longrightarrow>
   xs ! i \<noteq> xs ! j"
proof (induction xs arbitrary: i j)
  case Nil
  then show ?case by simp
next
  case (Cons x xs)
  then show ?case
    by (cases i; cases j) (auto split: if_splits)
qed

lemma snapshot_dedup:
  assumes "snapshot reg = Inr us"
  shows "distinct (filter (\<lambda>k. \<not> is_reference k) (map entry_id us))"
proof -
  from assms obtain m where m: "collect_users [] (map snd reg) = Inr m" and us: "us = map snd m"
    by (auto simp: snapshot_def split: sum.splits)
  have inv: "keys_ok m \<and> distinct (filter (\<lambda>k. \<not> is_reference k) (map fst m))"
    using collect_users_inv [OF m] by (simp add: keys_ok_def)
  then have eq: "map entry_id us = map fst m"
    unfolding us by (auto simp: keys_ok_def)
  show ?thesis unfolding eq using inv by blast
qed

lemma broadcastPresence_sent_ok:
  assumes "broadcastPresence h = Inr h'" and "sent_ok h"
  shows "sent_ok h'"
proof -
  from assms(1) obtain us where us: "snapshot (activeUsers h) = Inr us"
    and h': "h' = h\<lparr>sent := sent h @ map (\<lambda>c. (c, presence_update us)) (open_clients h)\<rparr>"
    by (auto simp: broadcastPresence_def split: sum.splits)
  have "dedup_users us" using snapshot_dedup [OF us] by (simp add: dedup_users_def)
  then show ?thesis using assms(2) unfolding h' sent_ok_def by auto
qed

lemma sent_ok_registry: "sent_ok (h\<lparr>activeUsers := r\<rparr>) = sent_ok h"
  and sent_ok_clients: "sent_ok (h\<lparr>clients := cs\<rparr>) = sent_ok h"
  by (simp_all add: sent_ok_def)

lemma on_message_sent_ok: "sent_ok h \<Longrightarrow> sent_ok (on_message h ws parsed)"
  by (auto simp: on_message_def Let_def sent_ok_registry
      split: sum.splits dest: broadcastPresence_sent_ok)

lemma step_sent_ok: "step h e = Inr h' \<Longrightarrow> sent_ok h \<Longrightarrow> sent_ok h'"
proof (cases e)
  case (Connection ws)
  assume "step h e = Inr h'" "sent_ok h"
  then show ?thesis using Connection by (auto simp: sent_ok_clients)
next
  case (Message ws parsed)
  assume "step h e = Inr h'" "sent_ok h"
  then show ?thesis using Message by (auto simp: on_message_sent_ok)
next
  case (Close ws)
  assume "step h e = Inr h'" "sent_ok h"
  then show ?thesis using Close
    by (auto simp: on_close_def sent_ok_registry sent_ok_clients dest!: broadcastPresence_sent_ok)
qed

lemma run_events_sent_ok: "run_events h evs = Inr h' \<Longrightarrow> sent_ok h \<Longrightarrow> sent_ok h'"
proof (induction evs arbitrary: h)
  case Nil
  then show ?case by simp
next
  case (Cons e evs)
  then show ?case by (auto split: sum.splits dest: step_sent_ok)
qed

text \<open>
  Claim C2 (dedup invariant). Whatever connections, frames and closes the hub has handled
  since it started, every payload it has sent is a \<^verbatim>\<open>PRESENCE_UPDATE\<close> whose \<^verbatim>\<open>users\<close>
  array holds no two entries with the same id: an entry whose id is a primitive value
  (a string, as the registry's type says, or a number, a boolean, \<^verbatim>\<open>null\<close>, or no id at
  all) differs in its id from every other entry. This covers two connections that
  announced the same id. Ids that are objects or arrays are compared by reference by the
  \<^verbatim>\<open>Map\<close> and are never the same.
\<close>

theorem broadcast_snapshot_has_no_duplicate_id:
  assumes "run_events hub0 evs = Inr h" and "(c, p) \<in> set (sent h)"
  shows "\<exists>us. p = presence_update us \<and>
           (\<forall>i < length us. \<forall>j < length us.
              i \<noteq> j \<and> \<not> is_reference (entry_id (us ! i)) \<longrightarrow> entry_id (us ! i) \<noteq> entry_id (us ! j))"
proof -
  have "sent_ok hub0" by (simp add: sent_ok_def hub0_def)
  then have "sent_ok h" using assms(1) by (rule run_events_sent_ok [rotated])
  with assms(2) obtain us where p: "p = presence_update us" and d: "dedup_users us"
    by (auto simp: sent_ok_def)
  have "entry_id (us ! i) \<noteq> entry_id (us ! j)"
    if "i < length us" "j < length us" "i \<noteq> j" "\<not> is_reference (entry_id (us ! i))" for i j
    using nth_distinct_filter [of "\<lambda>k. \<not> is_reference k" "map entry_id us" i j] d that
    by (simp add: dedup_users_def)
  with p show ?thesis by blast
qed

lemma three_sockets_run:
  "\<exists>h. run_events hub0 three_sockets = Inr h \<and> (3, presence_update [alice_tab2, bob]) \<in> set (sent h)"
  by (simp add: three_sockets_def hub0_def on_message_def user_joined_def broadcastPresence_def
      snapshot_def open_clients_def alice_def bob_def alice_tab2_def same_value_zero_def)

text \<open>The run \<open>three_sockets\<close>: the last broadcast holds the id \<^verbatim>\<open>u1\<close> once, with the
  record of the socket that announced it last, and \<^verbatim>\<open>u2\<close>.\<close>

theorem broadcast_snapshot_has_no_duplicate_id_witness:
  "\<exists>h. run_events hub0 three_sockets = Inr h \<and>
       (3, presence_update [alice_tab2, bob]) \<in> set (sent h) \<and>
       entry_id ([alice_tab2, bob] ! 0) \<noteq> entry_id ([alice_tab2, bob] ! 1)"
proof -
  obtain h where run: "run_events hub0 three_sockets = Inr h"
    and mem: "(3, presence_update [alice_tab2, bob]) \<in> set (sent h)"
    using three_sockets_run by blast
  obtain us where eq: "presence_update [alice_tab2, bob] = presence_update us"
    and d: "\<forall>i < length us. \<forall>j < length us.
              i \<noteq> j \<and> \<not> is_reference (entry_id (us ! i)) \<longrightarrow> entry_id (us ! i) \<noteq> entry_id (us ! j)"
    using broadcast_snapshot_has_no_duplicate_id [OF run mem] by blast
  have us: "us = [alice_tab2, bob]" using eq by (simp add: presence_update_def)
  have "\<not> is_reference (entry_id (us ! 0))"
    by (simp add: us entry_id_def alice_tab2_def)
  moreover have "0 < length us" "1 < length us" by (simp_all add: us)
  ultimately have "entry_id (us ! 0) \<noteq> entry_id (us ! 1)"
    using d by (metis zero_neq_one)
  then show ?thesis using run mem us by auto
qed

lemma snapshot_total:
  assumes "\<forall>v \<in> snd ` set reg. healthy v"
  shows "\<exists>us. snapshot reg = Inr us"
proof -
  have "\<forall>v \<in> set (map snd reg). healthy v" using assms by simp
  then obtain m where "collect_users [] (map snd reg) = Inr m"
    using collect_users_total by blast
  then show ?thesis by (simp add: snapshot_def)
qed

lemma collect_users_reads_all:
  "collect_users m vs = Inr m' \<Longrightarrow> v \<in> set vs \<Longrightarrow>
   \<exists>u k. v = Some u \<and> get_prop (Some u) ''id'' = Inr k"
proof (induction vs arbitrary: m)
  case Nil
  then show ?case by simp
next
  case (Cons w ws)
  from Cons.prems(1) obtain u k where w: "w = Some u" and k: "get_prop (Some u) ''id'' = Inr k"
    and rest: "collect_users (usersMap_set m k u) ws = Inr m'"
    by (auto split: sum.splits option.splits)
  show ?case
  proof (cases "v = w")
    case True
    then show ?thesis using w k by blast
  next
    case False
    then have "v \<in> set ws" using Cons.prems(2) by simp
    then show ?thesis using Cons.IH [OF rest] by blast
  qed
qed

lemma snapshot_contains_id:
  assumes "snapshot reg = Inr us" and "(c, Some u) \<in> set reg"
  shows "\<exists>e \<in> set us. entry_id e = entry_id u"
proof -
  from assms(1) obtain m where m: "collect_users [] (map snd reg) = Inr m" and us: "us = map snd m"
    by (auto simp: snapshot_def split: sum.splits)
  have ok: "keys_ok m" using collect_users_inv [OF m] by (simp add: keys_ok_def)
  have mem: "Some u \<in> set (map snd reg)" using assms(2) by force
  then obtain k where k: "get_prop (Some u) ''id'' = Inr k"
    using collect_users_reads_all [OF m] by blast
  then have "k \<in> fst ` set m" using collect_users_keys [OF m] mem by blast
  then obtain e where "(k, e) \<in> set m" by auto
  then have e: "e \<in> set us" "entry_id e = k" using ok us by (force simp: keys_ok_def)+
  have "entry_id u = k" using k entry_id_of_get_prop by blast
  with e show ?thesis by auto
qed

lemma update_values: "(c, w) \<in> set (AList.update k v al) \<Longrightarrow> w = v \<or> (c, w) \<in> set al"
  by (induction al) (auto split: if_splits)

lemma update_member: "(k, v) \<in> set (AList.update k v al)"
  by (induction al) auto

text \<open>
  When every registered value is one on which \<^verbatim>\<open>user.id\<close> can be read and \<open>u\<close> is not
  \<^verbatim>\<open>null\<close>, the frame \<^verbatim>\<open>{"type":"USER_JOINED","user":u}\<close> of connection \<open>ws\<close> is registered
  and broadcast in one step: the payload \<^verbatim>\<open>{"type":"PRESENCE_UPDATE","users":us}\<close>, with
  \<open>us\<close> the snapshot of the new registry, is sent once to every connection of
  \<^verbatim>\<open>wss.clients\<close> that is open, to \<open>ws\<close> itself when it is open, and \<open>us\<close> has an entry
  with the id of \<open>u\<close>.
\<close>

lemma announce_reaches_open_clients_of_healthy_hub:
  assumes "\<forall>v \<in> snd ` set (activeUsers h). v \<noteq> None \<and> v \<noteq> Some JNull"
    and "user \<noteq> JNull"
  shows "\<exists>us. snapshot (AList.update ws (Some user) (activeUsers h)) = Inr us \<and>
              sent (on_message h ws (Inr (user_joined user))) =
                sent h @
                map (\<lambda>c. (c, JObj [(''type'', JStr ''PRESENCE_UPDATE''), (''users'', JArr us)]))
                  (open_clients h) \<and>
              (\<exists>e \<in> set us. entry_id e = entry_id user) \<and>
              ((ws, OPEN) \<in> set (clients h) \<longrightarrow>
                 (ws, JObj [(''type'', JStr ''PRESENCE_UPDATE''), (''users'', JArr us)])
                   \<in> set (sent (on_message h ws (Inr (user_joined user)))))"
proof -
  let ?reg = "AList.update ws (Some user) (activeUsers h)"
  let ?h' = "h\<lparr>activeUsers := ?reg\<rparr>"
  have "healthy w" if "(c, w) \<in> set ?reg" for c w
    using update_values [OF that] assms by (force simp: healthy_def)
  then have "\<forall>v \<in> snd ` set ?reg. healthy v" by auto
  then obtain us where us: "snapshot ?reg = Inr us" using snapshot_total by blast
  have msg: "on_message h ws (Inr (user_joined user)) =
               ?h'\<lparr>sent := sent h @ map (\<lambda>c. (c, presence_update us)) (open_clients h)\<rparr>"
    using us by (simp add: on_message_def user_joined_def broadcastPresence_def open_clients_def)
  have "\<exists>e \<in> set us. entry_id e = entry_id user"
    using snapshot_contains_id [OF us update_member] .
  moreover have "(ws, OPEN) \<in> set (clients h) \<Longrightarrow> ws \<in> set (open_clients h)"
    by (force simp: open_clients_def)
  ultimately show ?thesis unfolding msg using us by (auto simp: presence_update_def)
qed

lemma announce_on_hub_two_open:
  "sent (on_message hub_two_open 2 (Inr (user_joined bob))) =
     [(1, JObj [(''type'', JStr ''PRESENCE_UPDATE''), (''users'', JArr [alice, bob])]),
      (2, JObj [(''type'', JStr ''PRESENCE_UPDATE''), (''users'', JArr [alice, bob])])]"
  by (simp add: hub_two_open_def on_message_def user_joined_def broadcastPresence_def
      snapshot_def open_clients_def presence_update_def alice_def bob_def same_value_zero_def)

text \<open>
  Claim C5 (no self-exclusion) says that the broadcast caused by a client's announce goes
  to every open connection, the announcing one included, and carries the announcer. The
  code breaks it once the registry holds \<^verbatim>\<open>undefined\<close>: connection 2 sends
  \<^verbatim>\<open>{"type":"USER_JOINED"}\<close>, then connection 1, open, announces \<open>alice\<close>. The announce
  is registered, \<^verbatim>\<open>broadcastPresence\<close> throws at the value of connection 2, and nothing is
  sent to anybody: neither connection ever receives a snapshot with \<open>alice\<close>.
\<close>

theorem announce_after_bare_join_reaches_nobody:
  "run_events hub0 bare_then_alice =
     Inr \<lparr>activeUsers = [(2, None), (1, Some alice)], clients = [(1, OPEN), (2, OPEN)],
          sent = []\<rparr>"
  by (simp add: bare_then_alice_def hub0_def bare_join_def on_message_def user_joined_def
      broadcastPresence_def snapshot_def open_clients_def alice_def)

section \<open>The hub: frames that are not a well-formed announce\<close>

lemma unparseable_frame_is_dropped: "on_message h ws (Inl err) = h"
  by (simp add: on_message_def)

lemma other_type_is_dropped:
  "get_prop (Some data) ''type'' \<noteq> Inr (Some (JStr ''USER_JOINED'')) \<Longrightarrow>
   on_message h ws (Inr data) = h"
  by (auto simp: on_message_def split: sum.splits)

text \<open>
  Claim C6 (malformed frames). A frame that does not parse, and a frame of another type,
  leave the hub as it was (the two lemmas above). A \<^verbatim>\<open>USER_JOINED\<close> frame without a
  \<^verbatim>\<open>user\<close> does not: with \<open>alice\<close> registered on connection 1, the frame
  \<^verbatim>\<open>{"type":"USER_JOINED"}\<close> on connection 2 stores \<^verbatim>\<open>undefined\<close> for connection 2. Nothing is
  sent, because \<^verbatim>\<open>broadcastPresence\<close> throws inside the \<^verbatim>\<open>try\<close>; from then on it throws on
  every call, so the next close of a connection raises an uncaught TypeError and a later
  well-formed announce is broadcast to nobody. A \<^verbatim>\<open>USER_JOINED\<close> frame whose user has no
  \<^verbatim>\<open>id\<close> is registered and broadcast.
\<close>

theorem user_joined_without_user_is_registered:
  "activeUsers (on_message hub_alice 2 (Inr bare_join)) = [(1, Some alice), (2, None)] \<and>
   activeUsers (on_message hub_alice 2 (Inr bare_join)) \<noteq> activeUsers hub_alice \<and>
   sent (on_message hub_alice 2 (Inr bare_join)) = [] \<and>
   on_close (on_message hub_alice 2 (Inr bare_join)) 1 = Inl TypeError \<and>
   sent (on_message (on_message hub_alice 2 (Inr bare_join)) 1 (Inr (user_joined bob))) = [] \<and>
   activeUsers (on_message hub_alice 2 (Inr anonymous_join)) =
     [(1, Some alice), (2, Some (JObj [(''name'', JStr ''Nobody'')]))] \<and>
   sent (on_message hub_alice 2 (Inr anonymous_join)) =
     [(1, presence_update [alice, JObj [(''name'', JStr ''Nobody'')]]),
      (2, presence_update [alice, JObj [(''name'', JStr ''Nobody'')]])]"
  by (simp add: hub_alice_def bare_join_def anonymous_join_def on_message_def on_close_def
      user_joined_def broadcastPresence_def snapshot_def open_clients_def alice_def bob_def
      same_value_zero_def)

section \<open>The concrete client runs, computed\<close>

lemmas ops = transport_opened_def mount_def sync_ref_def presence_effect_def presence_cleanup_def
  deliver_def commit_def dep_def ws_onmessage_def addNotification_def handleLogin_def
  handleLogout_def handleBulkUpdate_def login_def logout_def bulkUpdate_def

lemma fresh_ann_eq:
  "fresh_ann = \<lparr>currentUser = Some ann, users = [ann], notifications = [], onlineUsers = [],
     onlineUsersRef = [], socket = Some \<lparr>readyState = OPEN, owner = ann\<rparr>\<rparr>"
  by (simp add: fresh_ann_def ops)

lemma after_first_eq:
  "after_first = \<lparr>currentUser = Some ann, users = [ann], notifications = [],
     onlineUsers = [ann, bo], onlineUsersRef = [ann, bo],
     socket = Some \<lparr>readyState = OPEN, owner = ann\<rparr>\<rparr>"
  by (simp add: after_first_def fresh_ann_eq ops)

lemma peers_seen_eq:
  "peers_seen = \<lparr>currentUser = Some ann, users = [ann], notifications = [],
     onlineUsers = [bo, cy], onlineUsersRef = [bo, cy],
     socket = Some \<lparr>readyState = OPEN, owner = ann\<rparr>\<rparr>"
  by (simp add: peers_seen_def fresh_ann_eq ops)

lemma switched_eq:
  "switched = \<lparr>currentUser = Some ann2, users = [ann2], notifications = [],
     onlineUsers = [ann, bo], onlineUsersRef = [ann, bo],
     socket = Some \<lparr>readyState = OPEN, owner = ann2\<rparr>\<rparr>"
  by (simp add: switched_def after_first_eq csv_import_def ann_def ann2_def ops)

section \<open>The client: receiving snapshots\<close>

lemma notify_new_frame:
  "currentUser (notify_new me clock i us c) = currentUser c \<and>
   users (notify_new me clock i us c) = users c \<and>
   onlineUsers (notify_new me clock i us c) = onlineUsers c \<and>
   onlineUsersRef (notify_new me clock i us c) = onlineUsersRef c \<and>
   socket (notify_new me clock i us c) = socket c"
  by (induction us arbitrary: i c) (simp_all add: addNotification_def)

lemma ws_onmessage_frame:
  "currentUser (ws_onmessage me clock msg c) = currentUser c \<and>
   socket (ws_onmessage me clock msg c) = socket c"
  by (cases msg) (simp_all add: ws_onmessage_def notify_new_frame)

lemma deliver_open:
  assumes "socket c = Some ws" and "readyState ws = OPEN"
  shows "deliver clock msg c = sync_ref (ws_onmessage (owner ws) clock msg c)"
  using assms by (simp add: deliver_def commit_def dep_def ws_onmessage_frame sync_ref_def)

lemma first_snapshot_silent:
  assumes "socket c = Some ws" and "readyState ws = OPEN" and "onlineUsersRef c = []"
  shows "deliver clock (PRESENCE_UPDATE S) c = c\<lparr>onlineUsers := S, onlineUsersRef := S\<rparr>"
  using assms by (simp add: deliver_open ws_onmessage_def sync_ref_def)

text \<open>
  Claim C10 (an empty cache re-enables the initial treatment). The handler tests
  \<^verbatim>\<open>onlineUsersRef.current.length > 0\<close>, so on an open socket every snapshot that arrives
  while the cached list is empty adds no notification and becomes the online list and
  the cache. This holds for any state: after a \<^verbatim>\<open>PRESENCE_UPDATE\<close> with an empty user list
  and its render the next snapshot is handled as an initial one, whatever was cached
  before.
\<close>

theorem empty_cache_means_initial_snapshot:
  assumes "socket c = Some ws" and "readyState ws = OPEN"
  shows "(onlineUsersRef c = [] \<longrightarrow>
            notifications (deliver clock (PRESENCE_UPDATE S) c) = notifications c \<and>
            onlineUsers (deliver clock (PRESENCE_UPDATE S) c) = S \<and>
            onlineUsersRef (deliver clock (PRESENCE_UPDATE S) c) = S) \<and>
         notifications (deliver clock (PRESENCE_UPDATE S) (deliver clock0 (PRESENCE_UPDATE []) c)) =
           notifications c \<and>
         onlineUsers (deliver clock (PRESENCE_UPDATE S) (deliver clock0 (PRESENCE_UPDATE []) c)) = S \<and>
         onlineUsersRef (deliver clock (PRESENCE_UPDATE S) (deliver clock0 (PRESENCE_UPDATE []) c)) = S"
proof -
  let ?c' = "deliver clock0 (PRESENCE_UPDATE []) c"
  have c': "?c' = c\<lparr>onlineUsers := [], onlineUsersRef := []\<rparr>"
    using assms by (simp add: deliver_open ws_onmessage_def sync_ref_def)
  then have "socket ?c' = Some ws" "onlineUsersRef ?c' = []" "notifications ?c' = notifications c"
    using assms by simp_all
  then show ?thesis
    using first_snapshot_silent [OF assms] first_snapshot_silent [of ?c' ws clock S] assms(2)
    by simp
qed

theorem empty_cache_means_initial_snapshot_witness:
  "socket after_first = Some \<lparr>readyState = OPEN, owner = ann\<rparr> \<and>
   onlineUsersRef after_first = [ann, bo] \<and>
   notifications (deliver same_ms (PRESENCE_UPDATE [ann, cy, di])
      (deliver same_ms (PRESENCE_UPDATE []) after_first)) = [] \<and>
   onlineUsersRef (deliver same_ms (PRESENCE_UPDATE [ann, cy, di])
      (deliver same_ms (PRESENCE_UPDATE []) after_first)) = [ann, cy, di] \<and>
   socket fresh_ann = Some \<lparr>readyState = OPEN, owner = ann\<rparr> \<and>
   onlineUsersRef fresh_ann = [] \<and>
   notifications (deliver same_ms (PRESENCE_UPDATE [bo, cy]) fresh_ann) = [] \<and>
   onlineUsersRef (deliver same_ms (PRESENCE_UPDATE [bo, cy]) fresh_ann) = [bo, cy]"
proof -
  have s: "socket after_first = Some \<lparr>readyState = OPEN, owner = ann\<rparr>"
    and r: "readyState \<lparr>readyState = OPEN, owner = ann\<rparr> = OPEN"
    and k: "onlineUsersRef after_first = [ann, bo]"
    and n: "notifications after_first = []"
    by (simp_all add: after_first_eq)
  have s': "socket fresh_ann = Some \<lparr>readyState = OPEN, owner = ann\<rparr>"
    and k': "onlineUsersRef fresh_ann = []"
    and n': "notifications fresh_ann = []"
    by (simp_all add: fresh_ann_eq)
  from empty_cache_means_initial_snapshot [OF s r, of same_ms "[ann, cy, di]" same_ms]
    empty_cache_means_initial_snapshot [OF s' r, of same_ms "[bo, cy]" same_ms]
  show ?thesis using s k n s' k' n' by simp
qed

text \<open>
  Claim C3 (new-arrival detection). The cache holds \<open>[A, B]\<close> and the snapshot \<open>[A, B, C]\<close>
  arrives on the open socket, \<open>C\<close> being a third peer: its id is not that of \<open>A\<close>, of \<open>B\<close>
  or of the local user. Exactly one notification is added, in front of the list; it is
  the "Peer Connected" notification whose message names \<open>C\<close>. Afterwards the online list
  and the cache are \<open>[A, B, C]\<close>.
\<close>

theorem new_arrival_is_announced_once:
  assumes "socket c = Some ws" and "readyState ws = OPEN"
    and "onlineUsersRef c = [A, B]"
    and "user_id C \<noteq> user_id A" and "user_id C \<noteq> user_id B"
    and "user_id C \<noteq> user_id (owner ws)"
  shows "notifications (deliver clock (PRESENCE_UPDATE [A, B, C]) c) =
           stamp (owner ws) (clock 2) (peer_connected C) # notifications c \<and>
         notif_message (stamp (owner ws) (clock 2) (peer_connected C)) =
           user_name C @ '' has joined the peer network.'' \<and>
         onlineUsers (deliver clock (PRESENCE_UPDATE [A, B, C]) c) = [A, B, C] \<and>
         onlineUsersRef (deliver clock (PRESENCE_UPDATE [A, B, C]) c) = [A, B, C]"
  using assms
  by (simp add: deliver_open ws_onmessage_def sync_ref_def addNotification_def stamp_def
      peer_connected_def numeral_2_eq_2)

theorem new_arrival_is_announced_once_witness:
  "socket peers_seen = Some \<lparr>readyState = OPEN, owner = ann\<rparr> \<and>
   onlineUsersRef peers_seen = [bo, cy] \<and>
   notifications (deliver same_ms (PRESENCE_UPDATE [bo, cy, di]) peers_seen) =
     [stamp ann (same_ms 2) (peer_connected di)] \<and>
   onlineUsersRef (deliver same_ms (PRESENCE_UPDATE [bo, cy, di]) peers_seen) = [bo, cy, di]"
proof -
  have s: "socket peers_seen = Some \<lparr>readyState = OPEN, owner = ann\<rparr>"
    and r: "readyState \<lparr>readyState = OPEN, owner = ann\<rparr> = OPEN"
    and k: "onlineUsersRef peers_seen = [bo, cy]"
    and n: "notifications peers_seen = []"
    by (simp_all add: peers_seen_eq)
  have ids: "user_id di \<noteq> user_id bo" "user_id di \<noteq> user_id cy"
    "user_id di \<noteq> user_id (owner \<lparr>readyState = OPEN, owner = ann\<rparr>)"
    by (simp_all add: ann_def bo_def cy_def di_def)
  from new_arrival_is_announced_once [OF s r k ids, of same_ms]
  show ?thesis using s k n by simp
qed

section \<open>The client: connecting\<close>

text \<open>
  Claim C1 (first-snapshot silence) says that the first snapshot a client receives after
  connecting adds no join notification, however many peers are online. The code breaks it
  for a client that connects because the current user's id changed without a logout: the
  presence effect resets the online list only in its branch for no current user.
  \<open>ann\<close> has seen \<open>[ann, bo]\<close>; a CSV import makes \<open>ann2\<close> the current user, the effect closes
  the old socket and opens a new one, and the list stays. The first snapshot on the new
  socket, with the two peers \<open>cy\<close> and \<open>di\<close> already online, adds a notification for each
  of them.
\<close>

theorem first_snapshot_after_identity_switch_notifies:
  "socket switched = Some \<lparr>readyState = OPEN, owner = ann2\<rparr> \<and>
   notifications switched = [] \<and>
   notifications (deliver same_ms (PRESENCE_UPDATE [cy, di, ann2]) switched) =
     [stamp ann2 (same_ms 1) (peer_connected di), stamp ann2 (same_ms 0) (peer_connected cy)]"
  by (simp add: switched_eq ops ann_def ann2_def bo_def cy_def di_def)

lemma mount_logged_in:
  "mount (Some me) us ns =
     \<lparr>currentUser = Some me, users = us, notifications = ns, onlineUsers = [], onlineUsersRef = [],
      socket = Some \<lparr>readyState = CONNECTING, owner = me\<rparr>\<rparr>"
  by (simp add: mount_def sync_ref_def presence_effect_def)

lemma mount_logged_out:
  "mount None us ns =
     \<lparr>currentUser = None, users = us, notifications = ns, onlineUsers = [], onlineUsersRef = [],
      socket = None\<rparr>"
  by (simp add: mount_def sync_ref_def presence_effect_def)

lemma logout_resets:
  assumes "currentUser c = Some u"
  shows "currentUser (logout c) = None \<and> onlineUsers (logout c) = [] \<and>
         onlineUsersRef (logout c) = [] \<and> notifications (logout c) = notifications c \<and>
         (\<forall>ws. socket (logout c) = Some ws \<longrightarrow> readyState ws \<noteq> OPEN \<and> readyState ws \<noteq> CONNECTING)"
  using assms
  by (auto simp: logout_def handleLogout_def commit_def dep_def sync_ref_def presence_effect_def
      presence_cleanup_def Let_def split: option.splits)

lemma login_connects:
  assumes "currentUser c = None" and "onlineUsers c = []"
  shows "socket (login me c) = Some \<lparr>readyState = CONNECTING, owner = me\<rparr> \<and>
         onlineUsersRef (login me c) = [] \<and> notifications (login me c) = notifications c"
  using assms
  by (auto simp: login_def handleLogin_def commit_def dep_def sync_ref_def presence_effect_def
      presence_cleanup_def Let_def split: option.splits)

lemma connect_paths:
  assumes "c = transport_opened (mount (Some me) us ns) \<or>
           c = transport_opened (login me (mount None us ns)) \<or>
           (\<exists>c0 u. currentUser c0 = Some u \<and> c = transport_opened (login me (logout c0)))"
  shows "socket c = Some \<lparr>readyState = OPEN, owner = me\<rparr> \<and> onlineUsersRef c = []"
proof -
  have open_up: "socket (transport_opened d) = Some \<lparr>readyState = OPEN, owner = me\<rparr> \<and>
                 onlineUsersRef (transport_opened d) = []"
    if "socket d = Some \<lparr>readyState = CONNECTING, owner = me\<rparr>" "onlineUsersRef d = []" for d
    using that by (simp add: transport_opened_def)
  consider (load) "c = transport_opened (mount (Some me) us ns)"
    | (first) "c = transport_opened (login me (mount None us ns))"
    | (again) c0 u where "currentUser c0 = Some u" "c = transport_opened (login me (logout c0))"
    using assms by blast
  then show ?thesis
  proof cases
    case load
    then show ?thesis using open_up [of "mount (Some me) us ns"] by (simp add: mount_logged_in)
  next
    case first
    have "currentUser (mount None us ns) = None" "onlineUsers (mount None us ns) = []"
      by (simp_all add: mount_logged_out)
    from login_connects [OF this] show ?thesis using first open_up by simp
  next
    case again
    have "currentUser (logout c0) = None" "onlineUsers (logout c0) = []"
      using logout_resets [OF again(1)] by simp_all
    from login_connects [OF this] show ?thesis using again(2) open_up by simp
  qed
qed

text \<open>
  On the other ways to connect the first snapshot is silent: on app load with a stored
  user, on login after app load, and on login after a logout the client has an open socket
  owned by the user and an empty cache, and the first snapshot \<open>S\<close> adds no notification,
  whatever the number of peers in \<open>S\<close>; \<open>S\<close> becomes the online list and the cache.
\<close>

lemma first_snapshot_after_load_or_login_is_silent:
  assumes "c = transport_opened (mount (Some me) us ns) \<or>
           c = transport_opened (login me (mount None us ns)) \<or>
           (\<exists>c0 u. currentUser c0 = Some u \<and> c = transport_opened (login me (logout c0)))"
  shows "socket c = Some \<lparr>readyState = OPEN, owner = me\<rparr> \<and>
         notifications (deliver clock (PRESENCE_UPDATE S) c) = notifications c \<and>
         onlineUsers (deliver clock (PRESENCE_UPDATE S) c) = S \<and>
         onlineUsersRef (deliver clock (PRESENCE_UPDATE S) c) = S"
proof -
  have c: "socket c = Some \<lparr>readyState = OPEN, owner = me\<rparr>" "onlineUsersRef c = []"
    using connect_paths [OF assms] by simp_all
  show ?thesis using first_snapshot_silent [OF c(1) _ c(2), of clock S] c(1) by simp
qed

lemma first_snapshot_on_fresh_ann:
  "socket fresh_ann = Some \<lparr>readyState = OPEN, owner = ann\<rparr> \<and>
   notifications (deliver same_ms (PRESENCE_UPDATE [bo, cy, di, ann]) fresh_ann) = [] \<and>
   onlineUsers (deliver same_ms (PRESENCE_UPDATE [bo, cy, di, ann]) fresh_ann) = [bo, cy, di, ann]"
proof -
  have "fresh_ann = transport_opened (mount (Some ann) [ann] []) \<or>
        fresh_ann = transport_opened (login ann (mount None [ann] [])) \<or>
        (\<exists>c0 u. currentUser c0 = Some u \<and> fresh_ann = transport_opened (login ann (logout c0)))"
    by (simp add: fresh_ann_def)
  from first_snapshot_after_load_or_login_is_silent [OF this, of same_ms "[bo, cy, di, ann]"]
  show ?thesis by (simp add: fresh_ann_eq)
qed

section \<open>The client: sequences of snapshots, logout and errors\<close>

lemma deliver_is_receive_then_render:
  assumes "socket c = Some ws" and "readyState ws = OPEN"
  shows "deliver clock msg c = commit c (receive clock msg c)"
  using assms by (simp add: deliver_def receive_def)




text \<open>
  Claim C7, as stated, fails for a transport error: \<^verbatim>\<open>ws.onerror\<close> only logs. After the
  first snapshot \<open>[ann, bo]\<close> the handler leaves the cache and the online list as they were
  and does not close the socket.
\<close>

theorem transport_error_resets_nothing:
  "onlineUsersRef (ws_onerror after_first) = [ann, bo] \<and>
   onlineUsers (ws_onerror after_first) = [ann, bo] \<and>
   socket (ws_onerror after_first) = Some \<lparr>readyState = OPEN, owner = ann\<rparr>"
  by (simp add: ws_onerror_def after_first_eq)

text \<open>
  Claim C7 (reset on disconnect), amended. A logout of a logged-in client closes the socket
  (it is no longer open or connecting, and no frame is handled on it any more) and empties
  the online list and the cache, so the first snapshot after the next login adds no
  notification and is published. The error handler changes nothing.
\<close>

theorem logout_resets_presence:
  assumes "currentUser c = Some u"
  shows "onlineUsers (logout c) = [] \<and> onlineUsersRef (logout c) = [] \<and>
         (\<forall>ws. socket (logout c) = Some ws \<longrightarrow>
                 readyState ws \<noteq> OPEN \<and> readyState ws \<noteq> CONNECTING) \<and>
         deliver clock msg (logout c) = logout c \<and>
         notifications (deliver clock (PRESENCE_UPDATE S) (transport_opened (login me (logout c)))) =
           notifications c \<and>
         onlineUsers (deliver clock (PRESENCE_UPDATE S) (transport_opened (login me (logout c)))) = S \<and>
         ws_onerror c = c"
proof -
  note out = logout_resets [OF assms]
  have gone: "deliver clock msg (logout c) = logout c"
    using out by (auto simp: deliver_def split: option.splits)
  let ?d = "transport_opened (login me (logout c))"
  have "\<exists>c0 u. currentUser c0 = Some u \<and> ?d = transport_opened (login me (logout c0))"
    using assms by blast
  then have d: "socket ?d = Some \<lparr>readyState = OPEN, owner = me\<rparr>" "onlineUsersRef ?d = []"
    using connect_paths [of ?d me "[]" "[]"] by simp_all
  have "currentUser (logout c) = None" "onlineUsers (logout c) = []" using out by simp_all
  from login_connects [OF this, of me]
  have "notifications (login me (logout c)) = notifications c" using out by simp
  then have nd: "notifications ?d = notifications c"
    by (simp add: transport_opened_def split: option.splits)
  show ?thesis
    using out gone nd first_snapshot_silent [OF d(1) _ d(2), of clock S]
    by (simp add: ws_onerror_def)
qed

theorem logout_resets_presence_witness:
  "currentUser after_first = Some ann \<and> onlineUsersRef after_first = [ann, bo] \<and>
   onlineUsersRef (logout after_first) = [] \<and>
   socket (logout after_first) = Some \<lparr>readyState = CLOSING, owner = ann\<rparr> \<and>
   notifications (deliver same_ms (PRESENCE_UPDATE [cy, di, bo])
      (transport_opened (login bo (logout after_first)))) = []"
proof -
  have cu: "currentUser after_first = Some ann" by (simp add: after_first_eq)
  have sock: "socket (logout after_first) = Some \<lparr>readyState = CLOSING, owner = ann\<rparr>"
    by (simp add: after_first_eq logout_def handleLogout_def commit_def dep_def sync_ref_def
        presence_effect_def presence_cleanup_def)
  from logout_resets_presence [OF cu, of same_ms _ "[cy, di, bo]" bo]
  show ?thesis using cu sock by (simp add: after_first_eq)
qed

section \<open>The notification store\<close>

lemma shared_store_eq:
  "currentUser shared_store = Some ann \<and>
   notifications shared_store =
     [stamp ann (same_ms 0) (peer_connected di), stamp bo (same_ms 0) (peer_connected cy)]"
  by (simp add: shared_store_def mount_logged_in addNotification_def logout_def login_def
      handleLogout_def handleLogin_def commit_def dep_def sync_ref_def presence_effect_def
      presence_cleanup_def Let_def ann_def bo_def)

text \<open>
  Claim C8, as stated, fails: the store is one list for all users of the browser, and
  \<^verbatim>\<open>clearNotifications\<close> empties it. With \<open>ann\<close> the current user, the notification owned by
  \<open>bo\<close> is in the list before the call and gone after it.
\<close>

theorem clear_all_removes_other_owners_notifications:
  "currentUser shared_store = Some ann \<and>
   map notif_userId (notifications shared_store) = [user_id ann, user_id bo] \<and>
   user_id bo \<noteq> user_id ann \<and>
   map notif_userId (notifications (clearNotifications shared_store)) = []"
  by (simp add: shared_store_eq clearNotifications_def stamp_def ann_def bo_def)

text \<open>
  Claim C8 (clear all), amended. \<^verbatim>\<open>clearNotifications\<close> empties the whole list: no
  notification of any owner remains and the unread count is 0. Nothing else of the state
  changes.
\<close>

theorem clear_all_empties_the_whole_list:
  "notifications (clearNotifications c) = [] \<and>
   filter (\<lambda>n. notif_userId n = someone) (notifications (clearNotifications c)) = [] \<and>
   unreadNotifications (clearNotifications c) = 0 \<and>
   currentUser (clearNotifications c) = currentUser c \<and>
   users (clearNotifications c) = users c \<and>
   onlineUsers (clearNotifications c) = onlineUsers c \<and>
   onlineUsersRef (clearNotifications c) = onlineUsersRef c \<and>
   socket (clearNotifications c) = socket c"
  by (simp add: clearNotifications_def unreadNotifications_def)

lemma dec_nonempty: "dec n \<noteq> []"
  by (subst dec.simps) simp

lemma digit_inj: "a < 10 \<Longrightarrow> b < 10 \<Longrightarrow> ''0123456789'' ! a = ''0123456789'' ! b \<Longrightarrow> a = (b::nat)"
proof -
  assume "a < 10" "b < 10" "''0123456789'' ! a = ''0123456789'' ! b"
  moreover have "distinct ''0123456789''" by simp
  ultimately show ?thesis by (simp add: nth_eq_iff_index_eq)
qed

lemma dec_inj: "dec m = dec n \<Longrightarrow> m = n"
proof (induction m arbitrary: n rule: dec.induct)
  case (1 m)
  show ?case
  proof (cases "m < 10")
    case small: True
    show ?thesis
    proof (cases "n < 10")
      case True
      with small "1.prems" show ?thesis
        by (simp add: dec.simps [of m] dec.simps [of n] digit_inj)
    next
      case False
      with small "1.prems" dec_nonempty [of "n div 10"] show ?thesis
        by (simp add: dec.simps [of m] dec.simps [of n] Cons_eq_append_conv)
    qed
  next
    case big: False
    show ?thesis
    proof (cases "n < 10")
      case True
      with big "1.prems" dec_nonempty [of "m div 10"] show ?thesis
        by (simp add: dec.simps [of m] dec.simps [of n] append_eq_Cons_conv)
    next
      case False
      with big "1.prems" have eq: "dec (m div 10) = dec (n div 10)"
        and d: "''0123456789'' ! (m mod 10) = ''0123456789'' ! (n mod 10)"
        by (simp_all add: dec.simps [of m] dec.simps [of n])
      have "m div 10 = n div 10" using "1.IH" [OF big eq] .
      moreover have "m mod 10 = n mod 10" using d by (intro digit_inj) simp_all
      ultimately show ?thesis by (metis div_mult_mod_eq)
    qed
  qed
qed

lemma three_adds_then_mark_one:
  assumes "notifications c = []"
    and "fst r1 \<noteq> fst r2" and "fst r1 \<noteq> fst r3" and "fst r2 \<noteq> fst r3"
    and "i \<in> {notif_id (stamp u r1 n1), notif_id (stamp u r2 n2), notif_id (stamp u r3 n3)}"
  shows "unreadNotifications (three_adds u r1 r2 r3 n1 n2 n3 c) = 3 \<and>
         unreadNotifications (markNotificationAsRead i (three_adds u r1 r2 r3 n1 n2 n3 c)) = 2 \<and>
         unreadNotifications
           (clearNotifications (markNotificationAsRead i (three_adds u r1 r2 r3 n1 n2 n3 c))) = 0"
proof -
  have "dec (fst r1) \<noteq> dec (fst r2)" "dec (fst r1) \<noteq> dec (fst r3)" "dec (fst r2) \<noteq> dec (fst r3)"
    using assms(2-4) dec_inj by blast+
  then show ?thesis using assms(1,5)
    by (auto simp: three_adds_def addNotification_def markNotificationAsRead_def
        unreadNotifications_def clearNotifications_def stamp_def)
qed

text \<open>
  Claim C9 (unread count). The id of a notification is \<^verbatim>\<open>'n' + Date.now()\<close>, so
  notifications added within one millisecond share their id. Starting from the empty list,
  three adds at the same clock reading give three unread notifications with one id;
  marking that id read marks all three, and the unread count is 0, not 2. The presence
  handler makes such adds itself: a snapshot with three new peers (\<open>burst\<close>) ends the same
  way. When the three clock readings differ the count is 2, and 0 after a clear (lemma
  \<open>three_adds_then_mark_one\<close>).
\<close>

theorem same_millisecond_ids_collide:
  "notifications (mount (Some ann) [ann] []) = [] \<and>
   map notif_id (notifications
      (three_adds ann (same_ms 0) (same_ms 1) (same_ms 2)
         (peer_connected bo) (peer_connected cy) (peer_connected di) (mount (Some ann) [ann] []))) =
     [''n1700000000000'', ''n1700000000000'', ''n1700000000000''] \<and>
   unreadNotifications
      (three_adds ann (same_ms 0) (same_ms 1) (same_ms 2)
         (peer_connected bo) (peer_connected cy) (peer_connected di) (mount (Some ann) [ann] [])) = 3 \<and>
   unreadNotifications (markNotificationAsRead ''n1700000000000''
      (three_adds ann (same_ms 0) (same_ms 1) (same_ms 2)
         (peer_connected bo) (peer_connected cy) (peer_connected di) (mount (Some ann) [ann] []))) = 0 \<and>
   map notif_id (notifications burst) =
     [''n1700000000000'', ''n1700000000000'', ''n1700000000000''] \<and>
   unreadNotifications (markNotificationAsRead ''n1700000000000'' burst) = 0"
proof -
  have d: "dec 1700000000000 = ''1700000000000''" by (simp add: dec.simps)
  have b: "notifications burst =
     [stamp ann (same_ms 4) (peer_connected ed), stamp ann (same_ms 3) (peer_connected di),
      stamp ann (same_ms 2) (peer_connected cy)]"
    by (simp add: burst_def after_first_eq deliver_def commit_def dep_def ws_onmessage_def
        sync_ref_def addNotification_def ann_def bo_def cy_def di_def ed_def numeral_eq_Suc)
  show ?thesis
    by (simp add: b d mount_logged_in three_adds_def addNotification_def
        markNotificationAsRead_def unreadNotifications_def stamp_def same_ms_def)
qed

end
